theory Spec2Isabelle
  imports Complex_Main "HOL-Library.AList"
begin

section \<open>Python values and the operations the two scripts apply to them\<close>

text \<open>
  Both scripts work on deserialised data: \<^verbatim>\<open>mitre.py\<close> on the result of
  \<^verbatim>\<open>response.json()\<close>, \<^verbatim>\<open>validation.py\<close> on the result of
  \<^verbatim>\<open>tomllib.load\<close>. Neither checks a type before it uses a value, so the model keeps
  the values dynamically typed and writes out what each Python operation does on every
  kind of value, including the exception it raises.

  A dictionary is an association list in insertion order, looked up with \<open>map_of\<close>;
  every dictionary that the parsers produce has string keys, on which the equality of HOL
  and \<^verbatim>\<open>==\<close> of Python agree. Strings are \<open>char list\<close>; iterating a
  \<^verbatim>\<open>str\<close> yields its one-character strings. \<open>PDate\<close> stands for the date and
  time values that only TOML has. No operation of the two scripts looks into a number, so
  integers and floats only need to be told apart from the containers.
\<close>

datatype pyval =
    PNone
  | PBool bool
  | PInt int
  | PFloat real
  | PDate string
  | PStr string
  | PList "pyval list"
  | PDict "(pyval \<times> pyval) list"

datatype py_error =
    TypeError
  | AttributeError
  | KeyError
  | IndexError
  | SystemExit int

definition bnd :: "py_error + 'a \<Rightarrow> ('a \<Rightarrow> py_error + 'b) \<Rightarrow> py_error + 'b" where
  "bnd r f = (case r of Inl e \<Rightarrow> Inl e | Inr x \<Rightarrow> f x)"

text \<open>\<^verbatim>\<open>s.startswith(p)\<close> on two strings.\<close>

definition startswith :: "string \<Rightarrow> string \<Rightarrow> bool" where
  "startswith s p = (take (length p) s = p)"

text \<open>\<^verbatim>\<open>p in s\<close> on two strings: \<open>p\<close> occurs in \<open>s\<close> as a contiguous run.\<close>

fun substring_of :: "string \<Rightarrow> string \<Rightarrow> bool" where
  "substring_of p [] = (p = [])"
| "substring_of p (c # cs) = (startswith (c # cs) p \<or> substring_of p cs)"

text \<open>
  \<^verbatim>\<open>'k' in x\<close> with a string literal on the left: key membership for a dictionary,
  element membership for a list (only the string itself is equal to it), substring test
  for a string, \<^verbatim>\<open>TypeError\<close> for everything else.
\<close>

fun py_in :: "string \<Rightarrow> pyval \<Rightarrow> py_error + bool" where
  "py_in k (PDict d) = Inr (map_of d (PStr k) \<noteq> None)"
| "py_in k (PList xs) = Inr (List.member xs (PStr k))"
| "py_in k (PStr s) = Inr (substring_of k s)"
| "py_in k _ = Inl TypeError"

text \<open>Whether a value can be a dictionary key: lists and dictionaries are unhashable.\<close>

fun hashable :: "pyval \<Rightarrow> bool" where
  "hashable (PList _) = False"
| "hashable (PDict _) = False"
| "hashable _ = True"

text \<open>
  Indexing a sequence of length \<open>n\<close> with an integer: positions \<open>0 .. n - 1\<close>
  from the front, \<open>-1 .. -n\<close> from the back, \<^verbatim>\<open>IndexError\<close> outside.
\<close>

definition seq_index :: "'a list \<Rightarrow> int \<Rightarrow> py_error + 'a" where
  "seq_index xs i =
     (if 0 \<le> i \<and> i < int (length xs) then Inr (xs ! nat i)
      else if i < 0 \<and> - int (length xs) \<le> i then Inr (xs ! nat (int (length xs) + i))
      else Inl IndexError)"

text \<open>
  \<^verbatim>\<open>x[k]\<close>. A dictionary raises \<^verbatim>\<open>KeyError\<close> for a missing key and
  \<^verbatim>\<open>TypeError\<close> for an unhashable one; a list or a string accepts only an integer
  (\<^verbatim>\<open>bool\<close> is an integer type); the other values are not subscriptable.
\<close>

fun py_getitem :: "pyval \<Rightarrow> pyval \<Rightarrow> py_error + pyval" where
  "py_getitem (PDict d) k =
     (if \<not> hashable k then Inl TypeError
      else (case map_of d k of None \<Rightarrow> Inl KeyError | Some v \<Rightarrow> Inr v))"
| "py_getitem (PList xs) (PInt i) = seq_index xs i"
| "py_getitem (PList xs) (PBool b) = seq_index xs (if b then 1 else 0)"
| "py_getitem (PList xs) _ = Inl TypeError"
| "py_getitem (PStr s) (PInt i) = bnd (seq_index s i) (\<lambda>c. Inr (PStr [c]))"
| "py_getitem (PStr s) (PBool b) = bnd (seq_index s (if b then 1 else 0)) (\<lambda>c. Inr (PStr [c]))"
| "py_getitem (PStr s) _ = Inl TypeError"
| "py_getitem _ _ = Inl TypeError"

text \<open>\<^verbatim>\<open>x.get('k', default)\<close>: only a dictionary has the method.\<close>

fun py_get :: "pyval \<Rightarrow> string \<Rightarrow> pyval \<Rightarrow> py_error + pyval" where
  "py_get (PDict d) k dflt = Inr (case map_of d (PStr k) of None \<Rightarrow> dflt | Some v \<Rightarrow> v)"
| "py_get _ k dflt = Inl AttributeError"

text \<open>
  The elements a \<^verbatim>\<open>for\<close> loop visits: the items of a list, the keys of a
  dictionary, the characters of a string; the other values are not iterable.
\<close>

fun py_iter :: "pyval \<Rightarrow> py_error + pyval list" where
  "py_iter (PList xs) = Inr xs"
| "py_iter (PDict d) = Inr (map fst d)"
| "py_iter (PStr s) = Inr (map (\<lambda>c. PStr [c]) s)"
| "py_iter _ = Inl TypeError"

text \<open>\<^verbatim>\<open>x.startswith("...")\<close>: only a string has the method.\<close>

fun py_startswith :: "pyval \<Rightarrow> string \<Rightarrow> py_error + bool" where
  "py_startswith (PStr s) p = Inr (startswith s p)"
| "py_startswith _ p = Inl AttributeError"

text \<open>\<^verbatim>\<open>x.keys()\<close>: only a dictionary has the method.\<close>

fun py_keys :: "pyval \<Rightarrow> py_error + pyval list" where
  "py_keys (PDict d) = Inr (map fst d)"
| "py_keys _ = Inl AttributeError"

text \<open>Truth value of a Python object, as \<^verbatim>\<open>if x:\<close> and \<^verbatim>\<open>not x\<close> take it.\<close>

fun py_truthy :: "pyval \<Rightarrow> bool" where
  "py_truthy PNone = False"
| "py_truthy (PBool b) = b"
| "py_truthy (PInt i) = (i \<noteq> 0)"
| "py_truthy (PFloat x) = (x \<noteq> 0)"
| "py_truthy (PDate s) = True"
| "py_truthy (PStr s) = (s \<noteq> [])"
| "py_truthy (PList xs) = (xs \<noteq> [])"
| "py_truthy (PDict d) = (d \<noteq> [])"


section \<open>validation.py\<close>

text \<open>
  The script reports through \<^verbatim>\<open>print\<close>; each message it can print is a
  constructor carrying the values interpolated into it.
\<close>

datatype message =
    Warning_unknown_rule_type pyval
  | Error_rule_not_found string
  | Fields_do_not_exist string "string list"
  | Validation_passed string

definition base_fields :: "string list" where
  "base_fields = [''description'', ''name'', ''risk_score'', ''severity'', ''type'']"

text \<open>
  \<^verbatim>\<open>get_required_fields(rule_type)\<close>: the list it returns and what it prints.
  \<^verbatim>\<open>rule_type\<close> is whatever value the document holds under \<^verbatim>\<open>rule.type\<close>;
  \<^verbatim>\<open>==\<close> against a string literal is true for that string only.
\<close>

definition get_required_fields :: "pyval \<Rightarrow> string list \<times> message list" where
  "get_required_fields rule_type =
     (if rule_type = PStr ''query'' then (base_fields @ [''query''], [])
      else if rule_type = PStr ''eql'' then (base_fields @ [''query'', ''language''], [])
      else if rule_type = PStr ''threshold'' then (base_fields @ [''query'', ''threshold''], [])
      else (base_fields, [Warning_unknown_rule_type rule_type]))"

text \<open>
  The loop \<^verbatim>\<open>for table_name in alert_config: present_fields.update(alert_config[table_name].keys())\<close>,
  over the table names still to visit.
\<close>

fun collect_present :: "pyval \<Rightarrow> pyval list \<Rightarrow> pyval set \<Rightarrow> py_error + pyval set" where
  "collect_present alert_config [] present_fields = Inr present_fields"
| "collect_present alert_config (table_name # rest) present_fields =
     bnd (py_getitem alert_config table_name) (\<lambda>table.
     bnd (py_keys table) (\<lambda>ks.
     collect_present alert_config rest (present_fields \<union> set ks)))"

text \<open>The guard of line 42: \<^verbatim>\<open>'rule' not in alert_config or 'type' not in alert_config['rule']\<close>.\<close>

definition rule_type_missing :: "pyval \<Rightarrow> py_error + bool" where
  "rule_type_missing alert_config =
     bnd (py_in ''rule'' alert_config) (\<lambda>has_rule.
       if \<not> has_rule then Inr True
       else bnd (py_getitem alert_config (PStr ''rule'')) (\<lambda>rule.
            bnd (py_in ''type'' rule) (\<lambda>has_type. Inr (\<not> has_type))))"

text \<open>
  \<^verbatim>\<open>validate_alert_config(alert_config, file_path)\<close>: the messages printed, in order,
  and how the call ends: with an exception (\<^verbatim>\<open>sys.exit(1)\<close> raises
  \<^verbatim>\<open>SystemExit\<close>), or normally, in which case the result carries the list
  \<^verbatim>\<open>missing_fields\<close> of line 54, the report of the validation.
\<close>

definition validate_alert_config :: "pyval \<Rightarrow> string \<Rightarrow> message list \<times> (py_error + string list)" where
  "validate_alert_config alert_config file_path =
     (case rule_type_missing alert_config of
        Inl e \<Rightarrow> ([], Inl e)
      | Inr True \<Rightarrow> ([Error_rule_not_found file_path], Inl (SystemExit 1))
      | Inr False \<Rightarrow>
          (case bnd (py_getitem alert_config (PStr ''rule'')) (\<lambda>rule. py_getitem rule (PStr ''type'')) of
             Inl e \<Rightarrow> ([], Inl e)
           | Inr rule_type \<Rightarrow>
               (case get_required_fields rule_type of (required_fields, out) \<Rightarrow>
                 (case bnd (py_iter alert_config) (\<lambda>names. collect_present alert_config names {}) of
                    Inl e \<Rightarrow> (out, Inl e)
                  | Inr present_fields \<Rightarrow>
                      (let missing_fields = filter (\<lambda>field. PStr field \<notin> present_fields) required_fields
                       in (out @ [if missing_fields \<noteq> []
                                  then Fields_do_not_exist file_path missing_fields
                                  else Validation_passed file_path],
                           Inr missing_fields))))))"


section \<open>mitre.py\<close>

text \<open>
  The loop of lines 46 to 50 over the references still to visit. It returns the pair
  \<^verbatim>\<open>(technique_id, technique_url)\<close>; both are \<^verbatim>\<open>None\<close> when the loop ends
  without \<^verbatim>\<open>break\<close>. \<^verbatim>\<open>and\<close> evaluates its right operand only when the
  left one is true.
\<close>

fun scan_references :: "pyval list \<Rightarrow> py_error + pyval \<times> pyval" where
  "scan_references [] = Inr (PNone, PNone)"
| "scan_references (ref # refs) =
     bnd (py_in ''external_id'' ref) (\<lambda>has_id.
       if \<not> has_id then scan_references refs
       else bnd (py_getitem ref (PStr ''external_id'')) (\<lambda>external_id.
            bnd (py_startswith external_id ''T'') (\<lambda>is_t.
              if \<not> is_t then scan_references refs
              else bnd (py_get ref ''url'' PNone) (\<lambda>technique_url.
                   Inr (external_id, technique_url)))))"

text \<open>
  The comprehension of lines 56 to 59:
  \<^verbatim>\<open>[tactic['phase_name'] for tactic in ... if 'phase_name' in tactic]\<close>.
\<close>

fun extract_tactics :: "pyval list \<Rightarrow> py_error + pyval list" where
  "extract_tactics [] = Inr []"
| "extract_tactics (tactic # rest) =
     bnd (py_in ''phase_name'' tactic) (\<lambda>has_name.
       if \<not> has_name then extract_tactics rest
       else bnd (py_getitem tactic (PStr ''phase_name'')) (\<lambda>phase_name.
            bnd (extract_tactics rest) (\<lambda>others. Inr (phase_name # others))))"

text \<open>
  \<^verbatim>\<open>parse_attack_pattern(attack_pattern_obj)\<close>: the dictionary it returns,
  \<^verbatim>\<open>None\<close>, or the exception it raises.
\<close>

definition parse_attack_pattern :: "pyval \<Rightarrow> py_error + pyval" where
  "parse_attack_pattern attack_pattern_obj =
     bnd (py_in ''external_references'' attack_pattern_obj) (\<lambda>has_refs.
     bnd (if has_refs
          then bnd (py_getitem attack_pattern_obj (PStr ''external_references'')) (\<lambda>refs.
               bnd (py_iter refs) scan_references)
          else Inr (PNone, PNone)) (\<lambda>(technique_id, technique_url).
       if \<not> py_truthy technique_id then Inr PNone
       else bnd (py_get attack_pattern_obj ''kill_chain_phases'' (PList [])) (\<lambda>phases.
            bnd (py_iter phases) (\<lambda>phase_list.
            bnd (extract_tactics phase_list) (\<lambda>tactics.
            bnd (py_get attack_pattern_obj ''x_mitre_deprecated'' (PBool False)) (\<lambda>deprecated.
            bnd (py_get attack_pattern_obj ''name'' (PStr ''N/A'')) (\<lambda>name.
            Inr (PDict [(PStr ''tactics'', PList tactics),
                        (PStr ''technique'', technique_id),
                        (PStr ''name'', name),
                        (PStr ''url'', technique_url),
                        (PStr ''deprecated'', deprecated)]))))))))"

text \<open>
  \<^verbatim>\<open>d[k] = v\<close> on a dictionary: a new key is appended, an existing key keeps its
  place and takes the new value; an unhashable key raises \<^verbatim>\<open>TypeError\<close>.
\<close>

definition py_setitem :: "(pyval \<times> pyval) list \<Rightarrow> pyval \<Rightarrow> pyval \<Rightarrow> py_error + (pyval \<times> pyval) list" where
  "py_setitem d k v = (if hashable k then Inr (AList.update k v d) else Inl TypeError)"

text \<open>
  The loop of lines 83 to 88 of \<^verbatim>\<open>main\<close> over the objects still to visit, with
  the dictionary \<^verbatim>\<open>mitre_mapped\<close> built so far.
\<close>

fun catalog_loop :: "pyval list \<Rightarrow> (pyval \<times> pyval) list \<Rightarrow> py_error + (pyval \<times> pyval) list" where
  "catalog_loop [] mitre_mapped = Inr mitre_mapped"
| "catalog_loop (obj # objs) mitre_mapped =
     bnd (py_get obj ''type'' PNone) (\<lambda>ty.
       if ty = PStr ''attack-pattern''
       then bnd (parse_attack_pattern obj) (\<lambda>parsed_object.
              if py_truthy parsed_object
              then bnd (py_getitem parsed_object (PStr ''technique'')) (\<lambda>key.
                   bnd (py_setitem mitre_mapped key parsed_object) (catalog_loop objs))
              else catalog_loop objs mitre_mapped)
       else catalog_loop objs mitre_mapped)"

text \<open>
  \<^verbatim>\<open>main\<close> of \<^verbatim>\<open>mitre.py\<close> from line 81 on, as a function of the document
  \<^verbatim>\<open>mitre_data\<close> that \<^verbatim>\<open>fetch_mitre_data\<close> returned: the dictionary
  \<^verbatim>\<open>mitre_mapped\<close> when the loop has ended, or the exception raised.
\<close>

definition mitre_main :: "pyval \<Rightarrow> py_error + (pyval \<times> pyval) list" where
  "mitre_main mitre_data =
     bnd (py_get mitre_data ''objects'' (PList [])) (\<lambda>objects.
     bnd (py_iter objects) (\<lambda>objs. catalog_loop objs []))"


section \<open>The inputs the properties speak about\<close>

text \<open>
  A configuration document: a dictionary whose keys are strings and whose values are all
  tables (dictionaries). \<^verbatim>\<open>tomllib.load\<close> always returns a dictionary with string
  keys; that every top-level value is a table is a condition on the document.
\<close>

fun is_table_entry :: "pyval \<times> pyval \<Rightarrow> bool" where
  "is_table_entry (PStr name, PDict fields) = True"
| "is_table_entry _ = False"

definition config_document :: "(pyval \<times> pyval) list \<Rightarrow> bool" where
  "config_document c = list_all is_table_entry c"

text \<open>The keys of a value that is a table; the other values have none.\<close>

fun table_keys :: "pyval option \<Rightarrow> pyval set" where
  "table_keys (Some (PDict fields)) = fst ` set fields"
| "table_keys _ = {}"

text \<open>The union of the key sets of the tables stored under the document's names.\<close>

definition all_field_names :: "(pyval \<times> pyval) list \<Rightarrow> pyval set" where
  "all_field_names c = (\<Union>name \<in> fst ` set c. table_keys (map_of c name))"

text \<open>
  An external reference with a T-identifier: a dictionary whose \<^verbatim>\<open>external_id\<close> is a
  string that starts with \<^verbatim>\<open>T\<close>.
\<close>

fun t_reference :: "pyval \<Rightarrow> bool" where
  "t_reference (PDict r) =
     (case map_of r (PStr ''external_id'') of
        Some (PStr s) \<Rightarrow> startswith s ''T''
      | _ \<Rightarrow> False)"
| "t_reference _ = False"

text \<open>
  An external reference, as the data model has it, without a T-identifier: a dictionary
  whose \<^verbatim>\<open>external_id\<close> is absent or a string that does not start with \<^verbatim>\<open>T\<close>.
\<close>

fun other_reference :: "pyval \<Rightarrow> bool" where
  "other_reference (PDict r) =
     (case map_of r (PStr ''external_id'') of
        None \<Rightarrow> True
      | Some (PStr s) \<Rightarrow> \<not> startswith s ''T''
      | Some _ \<Rightarrow> False)"
| "other_reference _ = False"

text \<open>
  What one object of the bundle adds to the catalogue when the loop body runs on it
  without an exception: nothing, or a key and the record stored under it.
\<close>

definition contribution :: "pyval \<Rightarrow> (pyval \<times> pyval) option" where
  "contribution obj =
     (case py_get obj ''type'' PNone of
        Inl e \<Rightarrow> None
      | Inr ty \<Rightarrow>
          if ty = PStr ''attack-pattern''
          then (case parse_attack_pattern obj of
                  Inl e \<Rightarrow> None
                | Inr parsed_object \<Rightarrow>
                    if py_truthy parsed_object
                    then (case py_getitem parsed_object (PStr ''technique'') of
                            Inl e \<Rightarrow> None
                          | Inr key \<Rightarrow> Some (key, parsed_object))
                    else None)
          else None)"

text \<open>
  The catalogue as the specification words it: a fold over the objects in bundle order
  into a map, a later record replacing an earlier one under the same key.
\<close>

definition last_write_wins :: "pyval \<Rightarrow> (pyval \<rightharpoonup> pyval) \<Rightarrow> (pyval \<rightharpoonup> pyval)" where
  "last_write_wins obj m = (case contribution obj of None \<Rightarrow> m | Some (k, r) \<Rightarrow> m(k \<mapsto> r))"

definition catalog_fold :: "pyval list \<Rightarrow> (pyval \<rightharpoonup> pyval)" where
  "catalog_fold objs = fold last_write_wins objs Map.empty"

text \<open>A sequence of objects: a list whose items are all dictionaries.\<close>

fun is_dict :: "pyval \<Rightarrow> bool" where
  "is_dict (PDict d) = True"
| "is_dict _ = False"

fun object_sequence :: "pyval \<Rightarrow> bool" where
  "object_sequence (PList xs) = list_all is_dict xs"
| "object_sequence _ = False"


text \<open>
  The dictionary literal that \<^verbatim>\<open>parse_attack_pattern\<close> returns (lines 64 to 70),
  for an object with the fields \<open>d\<close>: \<^verbatim>\<open>name\<close> and \<^verbatim>\<open>x_mitre_deprecated\<close>
  with their defaults.
\<close>

definition technique_record :: "(pyval \<times> pyval) list \<Rightarrow> pyval \<Rightarrow> pyval \<Rightarrow> pyval list \<Rightarrow> pyval" where
  "technique_record d tid u tactics =
     PDict [(PStr ''tactics'', PList tactics),
            (PStr ''technique'', tid),
            (PStr ''name'', case map_of d (PStr ''name'') of None \<Rightarrow> PStr ''N/A'' | Some n \<Rightarrow> n),
            (PStr ''url'', u),
            (PStr ''deprecated'',
               case map_of d (PStr ''x_mitre_deprecated'') of None \<Rightarrow> PBool False | Some b \<Rightarrow> b)]"

text \<open>
  A record with a valid technique identifier: a dictionary whose \<^verbatim>\<open>technique\<close> is a
  non-empty string that starts with \<^verbatim>\<open>T\<close>.
\<close>

fun has_t_technique :: "pyval \<Rightarrow> bool" where
  "has_t_technique (PDict rec) =
     (case map_of rec (PStr ''technique'') of
        Some (PStr s) \<Rightarrow> s \<noteq> [] \<and> startswith s ''T''
      | _ \<Rightarrow> False)"
| "has_t_technique _ = False"

text \<open>The keys of a JSON object are strings.\<close>

fun str_keyed :: "pyval \<Rightarrow> bool" where
  "str_keyed (PDict kv) = list_all (\<lambda>(k, v). case k of PStr s \<Rightarrow> True | _ \<Rightarrow> False) kv"
| "str_keyed _ = True"

text \<open>The two exceptions that an ill-typed bundle makes \<^verbatim>\<open>mitre.py\<close> raise.\<close>

fun builtin_error :: "py_error \<Rightarrow> bool" where
  "builtin_error TypeError = True"
| "builtin_error AttributeError = True"
| "builtin_error _ = False"


text \<open>
  A bundle object as the data model has it: a dictionary whose \<^verbatim>\<open>external_references\<close>,
  when present, are a list of dictionaries with \<^verbatim>\<open>external_id\<close> absent or a string,
  and whose \<^verbatim>\<open>kill_chain_phases\<close>, when present, are a list of dictionaries.
\<close>

fun data_model_reference :: "pyval \<Rightarrow> bool" where
  "data_model_reference (PDict r) =
     (case map_of r (PStr ''external_id'') of
        None \<Rightarrow> True
      | Some (PStr s) \<Rightarrow> True
      | Some _ \<Rightarrow> False)"
| "data_model_reference _ = False"

fun data_model_object :: "pyval \<Rightarrow> bool" where
  "data_model_object (PDict d) =
     ((case map_of d (PStr ''external_references'') of
         None \<Rightarrow> True
       | Some (PList refs) \<Rightarrow> list_all data_model_reference refs
       | Some _ \<Rightarrow> False)
      \<and> (case map_of d (PStr ''kill_chain_phases'') of
         None \<Rightarrow> True
       | Some (PList phases) \<Rightarrow> list_all is_dict phases
       | Some _ \<Rightarrow> False))"
| "data_model_object _ = False"


section \<open>Properties of validation.py\<close>

lemma bnd_simps [simp]:
  "bnd (Inl e) f = Inl e"
  "bnd (Inr x) f = f x"
  by (simp_all add: bnd_def)

text \<open>
  C6. \<^verbatim>\<open>get_required_fields("eql")\<close> is exactly description, name, risk_score,
  severity, type, query, language, in that order; the list for \<^verbatim>\<open>"threshold"\<close>
  contains threshold and query and does not contain language; and whatever the rule type
  is, the returned list begins with the five base fields.
\<close>

theorem required_fields_table:
  "fst (get_required_fields (PStr ''eql'')) =
     [''description'', ''name'', ''risk_score'', ''severity'', ''type'', ''query'', ''language'']
   \<and> ''threshold'' \<in> set (fst (get_required_fields (PStr ''threshold'')))
   \<and> ''query'' \<in> set (fst (get_required_fields (PStr ''threshold'')))
   \<and> ''language'' \<notin> set (fst (get_required_fields (PStr ''threshold'')))
   \<and> take 5 (fst (get_required_fields rule_type)) =
       [''description'', ''name'', ''risk_score'', ''severity'', ''type'']"
  by (simp add: get_required_fields_def base_fields_def)

subsection \<open>The validator on a configuration document\<close>

lemma table_lookup:
  assumes "config_document c" and "k \<in> fst ` set c"
  shows "\<exists>s t. k = PStr s \<and> map_of c k = Some (PDict t)"
proof -
  from assms(2) obtain v where "map_of c k = Some v"
    by (metis domD dom_map_of_conv_image_fst)
  then have "(k, v) \<in> set c" by (rule map_of_SomeD)
  with assms(1) have "is_table_entry (k, v)"
    by (auto simp: config_document_def list_all_iff)
  then obtain s t where "k = PStr s" "v = PDict t"
    by (cases "(k, v)" rule: is_table_entry.cases) auto
  with \<open>map_of c k = Some v\<close> show ?thesis by simp
qed

lemma collect_present_tables:
  assumes "config_document c"
  shows "set names \<subseteq> fst ` set c \<Longrightarrow>
     collect_present (PDict c) names P = Inr (P \<union> (\<Union>name \<in> set names. table_keys (map_of c name)))"
proof (induction names arbitrary: P)
  case Nil
  then show ?case by simp
next
  case (Cons n ns)
  then have "n \<in> fst ` set c" by simp
  from table_lookup [OF assms this] obtain s t where nt: "n = PStr s" "map_of c n = Some (PDict t)"
    by blast
  from Cons.prems have "set ns \<subseteq> fst ` set c" by simp
  from Cons.IH [OF this] nt show ?case
    by (simp add: Un_assoc)
qed

lemma collect_present_document:
  assumes "config_document c"
  shows "collect_present (PDict c) (map fst c) {} = Inr (all_field_names c)"
  using collect_present_tables [OF assms, of "map fst c" "{}"]
  by (simp add: all_field_names_def)

lemma validate_document:
  assumes "config_document c"
    and "map_of c (PStr ''rule'') = Some (PDict r)"
    and "map_of r (PStr ''type'') = Some rule_type"
  shows "validate_alert_config (PDict c) file_path =
    (let required = fst (get_required_fields rule_type);
         missing = filter (\<lambda>field. PStr field \<notin> all_field_names c) required
     in (snd (get_required_fields rule_type) @
           [if missing \<noteq> [] then Fields_do_not_exist file_path missing
            else Validation_passed file_path],
         Inr missing))"
  using assms
  by (simp add: validate_alert_config_def rule_type_missing_def collect_present_document
      Let_def split: prod.splits)

lemma validate_no_rule:
  assumes "map_of c (PStr ''rule'') = None
     \<or> (\<exists>r. map_of c (PStr ''rule'') = Some (PDict r) \<and> map_of r (PStr ''type'') = None)"
  shows "validate_alert_config (PDict c) file_path =
     ([Error_rule_not_found file_path], Inl (SystemExit 1))"
  using assms
  by (auto simp add: validate_alert_config_def rule_type_missing_def)


lemma collect_present_grows:
  "collect_present cfg names P = Inr Q \<Longrightarrow>
     P \<subseteq> Q \<and> (\<forall>n \<in> set names. \<forall>t. py_getitem cfg n = Inr (PDict t) \<longrightarrow> fst ` set t \<subseteq> Q)"
proof (induction names arbitrary: P)
  case Nil
  then show ?case by simp
next
  case (Cons n ns)
  from Cons.prems obtain tbl ks where
    tbl: "py_getitem cfg n = Inr tbl" and ks: "py_keys tbl = Inr ks"
    and rest: "collect_present cfg ns (P \<union> set ks) = Inr Q"
    by (auto simp: bnd_def split: sum.splits)
  from Cons.IH [OF rest] have
    sub: "P \<union> set ks \<subseteq> Q"
    and others: "\<forall>n \<in> set ns. \<forall>t. py_getitem cfg n = Inr (PDict t) \<longrightarrow> fst ` set t \<subseteq> Q"
    by blast+
  have "fst ` set t \<subseteq> Q" if "py_getitem cfg n = Inr (PDict t)" for t
  proof -
    from that tbl have "tbl = PDict t" by simp
    with ks have "set ks = fst ` set t" by force
    with sub show ?thesis by blast
  qed
  with sub others show ?case by auto
qed

lemma py_getitem_str_key:
  "py_getitem x (PStr k) = Inr v \<Longrightarrow> \<exists>d. x = PDict d \<and> map_of d (PStr k) = Some v"
  by (cases x) (auto split: option.splits)

lemma validate_returns:
  assumes "snd (validate_alert_config cfg file_path) = Inr missing"
  shows "\<exists>c r t present. cfg = PDict c \<and> map_of c (PStr ''rule'') = Some (PDict r)
           \<and> map_of r (PStr ''type'') = Some t
           \<and> collect_present cfg (map fst c) {} = Inr present
           \<and> missing = filter (\<lambda>field. PStr field \<notin> present) (fst (get_required_fields t))"
proof -
  from assms obtain rule t where
    rule: "py_getitem cfg (PStr ''rule'') = Inr rule" and t: "py_getitem rule (PStr ''type'') = Inr t"
    by (auto simp: validate_alert_config_def bnd_def split: sum.splits bool.splits)
  from py_getitem_str_key [OF rule] obtain c where
    c: "cfg = PDict c" "map_of c (PStr ''rule'') = Some rule" by blast
  from py_getitem_str_key [OF t] obtain r where
    r: "rule = PDict r" "map_of r (PStr ''type'') = Some t" by blast
  from assms c r obtain present where
    "collect_present cfg (map fst c) {} = Inr present"
    "missing = filter (\<lambda>field. PStr field \<notin> present) (fst (get_required_fields t))"
    by (auto simp: validate_alert_config_def rule_type_missing_def Let_def
        split: sum.splits bool.splits prod.splits)
  with c r show ?thesis by blast
qed

text \<open>
  C9. Whenever \<^verbatim>\<open>validate_alert_config\<close> returns, \<^verbatim>\<open>type\<close> is not among the
  missing fields. A call can only return on a document that satisfies the precondition
  (a \<^verbatim>\<open>rule\<close> table with a \<^verbatim>\<open>type\<close> field), and the keys of that table are part
  of the set of present fields that the required fields are checked against.
\<close>

theorem type_never_missing:
  assumes "snd (validate_alert_config cfg file_path) = Inr missing"
  shows "''type'' \<notin> set missing
     \<and> (\<exists>c r t. cfg = PDict c \<and> map_of c (PStr ''rule'') = Some (PDict r)
                \<and> map_of r (PStr ''type'') = Some t)"
proof -
  from validate_returns [OF assms] obtain c r t present where
    c: "cfg = PDict c" and rule: "map_of c (PStr ''rule'') = Some (PDict r)"
    and t: "map_of r (PStr ''type'') = Some t"
    and present: "collect_present cfg (map fst c) {} = Inr present"
    and missing: "missing = filter (\<lambda>field. PStr field \<notin> present) (fst (get_required_fields t))"
    by blast
  from rule have "PStr ''rule'' \<in> set (map fst c)"
    by (metis map_of_SomeD fst_conv image_eqI set_map)
  moreover from c rule have "py_getitem cfg (PStr ''rule'') = Inr (PDict r)" by simp
  ultimately have "fst ` set r \<subseteq> present"
    using collect_present_grows [OF present] by blast
  moreover from t have "PStr ''type'' \<in> fst ` set r"
    by (metis map_of_SomeD fst_conv image_eqI)
  ultimately have "PStr ''type'' \<in> present" by blast
  with missing have "''type'' \<notin> set missing" by simp
  with c rule t show ?thesis by blast
qed


theorem type_never_missing_witness:
  "snd (validate_alert_config
      (PDict [(PStr ''rule'', PDict [(PStr ''type'', PStr ''eql''), (PStr ''name'', PStr ''X'')])])
      ''alert.toml'')
     = Inr [''description'', ''risk_score'', ''severity'', ''query'', ''language'']
   \<and> ''type'' \<notin> set [''description'', ''risk_score'', ''severity'', ''query'', ''language'']"
proof -
  have run: "snd (validate_alert_config
      (PDict [(PStr ''rule'', PDict [(PStr ''type'', PStr ''eql''), (PStr ''name'', PStr ''X'')])])
      ''alert.toml'')
     = Inr [''description'', ''risk_score'', ''severity'', ''query'', ''language'']"
    by (simp add: validate_alert_config_def rule_type_missing_def get_required_fields_def
        base_fields_def Let_def)
  from type_never_missing [OF run] run show ?thesis by blast
qed

text \<open>
  C4. A document without a \<^verbatim>\<open>rule\<close> entry, or whose \<^verbatim>\<open>rule\<close> table has no
  \<^verbatim>\<open>type\<close> field, makes \<^verbatim>\<open>validate_alert_config\<close> print the error and leave
  through \<^verbatim>\<open>sys.exit(1)\<close>: no list of missing fields is produced. A configuration
  document (string keys, every top-level value a table) that has both is validated to the
  end and a list of missing fields results.
\<close>

theorem missing_rule_declaration:
  "((map_of c (PStr ''rule'') = None
      \<or> (\<exists>r. map_of c (PStr ''rule'') = Some (PDict r) \<and> map_of r (PStr ''type'') = None))
     \<longrightarrow> validate_alert_config (PDict c) file_path
           = ([Error_rule_not_found file_path], Inl (SystemExit 1)))
   \<and> (config_document c
       \<and> (\<exists>r t. map_of c (PStr ''rule'') = Some (PDict r) \<and> map_of r (PStr ''type'') = Some t)
     \<longrightarrow> (\<exists>out missing. validate_alert_config (PDict c) file_path = (out, Inr missing)))"
proof (intro conjI impI)
  assume "map_of c (PStr ''rule'') = None
      \<or> (\<exists>r. map_of c (PStr ''rule'') = Some (PDict r) \<and> map_of r (PStr ''type'') = None)"
  then show "validate_alert_config (PDict c) file_path
           = ([Error_rule_not_found file_path], Inl (SystemExit 1))"
    by (rule validate_no_rule)
next
  assume "config_document c
       \<and> (\<exists>r t. map_of c (PStr ''rule'') = Some (PDict r) \<and> map_of r (PStr ''type'') = Some t)"
  then obtain r t where "config_document c" "map_of c (PStr ''rule'') = Some (PDict r)"
    "map_of r (PStr ''type'') = Some t" by blast
  from validate_document [OF this, of file_path]
  show "\<exists>out missing. validate_alert_config (PDict c) file_path = (out, Inr missing)"
    by (simp add: Let_def)
qed

theorem missing_rule_declaration_witness:
  "validate_alert_config (PDict [(PStr ''metadata'', PDict [(PStr ''type'', PStr ''query'')])]) ''alert.toml''
     = ([Error_rule_not_found ''alert.toml''], Inl (SystemExit 1))
   \<and> validate_alert_config (PDict [(PStr ''rule'', PDict [(PStr ''name'', PStr ''X'')])]) ''alert.toml''
     = ([Error_rule_not_found ''alert.toml''], Inl (SystemExit 1))
   \<and> (\<exists>out missing.
        validate_alert_config
          (PDict [(PStr ''rule'', PDict [(PStr ''type'', PStr ''query'')]),
                  (PStr ''metadata'', PDict [(PStr ''name'', PStr ''X'')])]) ''alert.toml''
        = (out, Inr missing))"
  using missing_rule_declaration [of "[(PStr ''metadata'', PDict [(PStr ''type'', PStr ''query'')])]" "''alert.toml''"]
    missing_rule_declaration [of "[(PStr ''rule'', PDict [(PStr ''name'', PStr ''X'')])]" "''alert.toml''"]
    missing_rule_declaration [of "[(PStr ''rule'', PDict [(PStr ''type'', PStr ''query'')]),
                  (PStr ''metadata'', PDict [(PStr ''name'', PStr ''X'')])]" "''alert.toml''"]
  by (simp add: config_document_def)

text \<open>
  C7. For a rule type other than \<^verbatim>\<open>query\<close>, \<^verbatim>\<open>eql\<close> and \<^verbatim>\<open>threshold\<close>,
  \<^verbatim>\<open>get_required_fields\<close> returns exactly the five base fields and prints the warning;
  \<^verbatim>\<open>validate_alert_config\<close> does not fail on a configuration document of such a type:
  it prints the warning, then its verdict, and the missing fields are the base fields
  absent from the document.
\<close>

theorem unknown_rule_type_is_advisory:
  assumes "rule_type \<notin> {PStr ''query'', PStr ''eql'', PStr ''threshold''}"
  shows "get_required_fields rule_type
       = ([''description'', ''name'', ''risk_score'', ''severity'', ''type''],
          [Warning_unknown_rule_type rule_type])
     \<and> (config_document c \<and> map_of c (PStr ''rule'') = Some (PDict r)
          \<and> map_of r (PStr ''type'') = Some rule_type
        \<longrightarrow> (\<exists>verdict.
              validate_alert_config (PDict c) file_path
              = ([Warning_unknown_rule_type rule_type, verdict],
                 Inr (filter (\<lambda>field. PStr field \<notin> all_field_names c)
                        [''description'', ''name'', ''risk_score'', ''severity'', ''type'']))))"
proof -
  from assms have req: "get_required_fields rule_type
       = ([''description'', ''name'', ''risk_score'', ''severity'', ''type''],
          [Warning_unknown_rule_type rule_type])"
    by (simp add: get_required_fields_def base_fields_def)
  show ?thesis
  proof (intro conjI impI)
    show "get_required_fields rule_type
       = ([''description'', ''name'', ''risk_score'', ''severity'', ''type''],
          [Warning_unknown_rule_type rule_type])" by (rule req)
  next
    assume "config_document c \<and> map_of c (PStr ''rule'') = Some (PDict r)
          \<and> map_of r (PStr ''type'') = Some rule_type"
    then have "config_document c" "map_of c (PStr ''rule'') = Some (PDict r)"
      "map_of r (PStr ''type'') = Some rule_type" by blast+
    from validate_document [OF this, of file_path] req
    show "\<exists>verdict.
              validate_alert_config (PDict c) file_path
              = ([Warning_unknown_rule_type rule_type, verdict],
                 Inr (filter (\<lambda>field. PStr field \<notin> all_field_names c)
                        [''description'', ''name'', ''risk_score'', ''severity'', ''type'']))"
      by (simp add: Let_def)
  qed
qed

theorem unknown_rule_type_is_advisory_witness:
  "get_required_fields (PStr ''machine_learning'')
       = ([''description'', ''name'', ''risk_score'', ''severity'', ''type''],
          [Warning_unknown_rule_type (PStr ''machine_learning'')])
   \<and> (\<exists>verdict.
        validate_alert_config
          (PDict [(PStr ''rule'', PDict [(PStr ''type'', PStr ''machine_learning''),
                                         (PStr ''name'', PStr ''X'')])]) ''alert.toml''
        = ([Warning_unknown_rule_type (PStr ''machine_learning''), verdict],
           Inr [''description'', ''risk_score'', ''severity'']))"
  using unknown_rule_type_is_advisory [of "PStr ''machine_learning''"
      "[(PStr ''rule'', PDict [(PStr ''type'', PStr ''machine_learning''), (PStr ''name'', PStr ''X'')])]"
      "[(PStr ''type'', PStr ''machine_learning''), (PStr ''name'', PStr ''X'')]" "''alert.toml''"]
  by (simp add: config_document_def all_field_names_def)

text \<open>
  C8. On a configuration document with a \<^verbatim>\<open>rule\<close> table that has a \<^verbatim>\<open>type\<close>,
  the missing fields are exactly the required fields that are a key of no top-level table,
  in the order of the list of required fields: a field counts as present whichever table
  holds it. For the document with the single table
  \<^verbatim>\<open>rule = {type: "query", name: "X", description: "d", risk_score: 1, severity: "low"}\<close>
  the missing fields are \<^verbatim>\<open>["query"]\<close>.
\<close>

theorem missing_fields_from_union:
  "(config_document c \<and> map_of c (PStr ''rule'') = Some (PDict r)
      \<and> map_of r (PStr ''type'') = Some rule_type
    \<longrightarrow> snd (validate_alert_config (PDict c) file_path)
        = Inr (filter (\<lambda>field. PStr field \<notin> all_field_names c)
                 (fst (get_required_fields rule_type))))
   \<and> snd (validate_alert_config
        (PDict [(PStr ''rule'',
           PDict [(PStr ''type'', PStr ''query''), (PStr ''name'', PStr ''X''),
                  (PStr ''description'', PStr ''d''), (PStr ''risk_score'', PInt 1),
                  (PStr ''severity'', PStr ''low'')])]) file_path)
     = Inr [''query'']"
proof (intro conjI impI)
  assume "config_document c \<and> map_of c (PStr ''rule'') = Some (PDict r)
      \<and> map_of r (PStr ''type'') = Some rule_type"
  then have "config_document c" "map_of c (PStr ''rule'') = Some (PDict r)"
      "map_of r (PStr ''type'') = Some rule_type" by blast+
  from validate_document [OF this, of file_path]
  show "snd (validate_alert_config (PDict c) file_path)
        = Inr (filter (\<lambda>field. PStr field \<notin> all_field_names c)
                 (fst (get_required_fields rule_type)))"
    by (simp add: Let_def)
next
  show "snd (validate_alert_config
        (PDict [(PStr ''rule'',
           PDict [(PStr ''type'', PStr ''query''), (PStr ''name'', PStr ''X''),
                  (PStr ''description'', PStr ''d''), (PStr ''risk_score'', PInt 1),
                  (PStr ''severity'', PStr ''low'')])]) file_path)
     = Inr [''query'']"
    by (simp add: validate_alert_config_def rule_type_missing_def get_required_fields_def
        base_fields_def Let_def)
qed

theorem missing_fields_from_union_witness:
  "snd (validate_alert_config
        (PDict [(PStr ''rule'', PDict [(PStr ''type'', PStr ''threshold''), (PStr ''name'', PStr ''X'')]),
                (PStr ''extra'', PDict [(PStr ''query'', PStr ''q''), (PStr ''severity'', PStr ''low'')])])
        ''alert.toml'')
     = Inr [''description'', ''risk_score'', ''threshold'']"
  using missing_fields_from_union [of
      "[(PStr ''rule'', PDict [(PStr ''type'', PStr ''threshold''), (PStr ''name'', PStr ''X'')]),
        (PStr ''extra'', PDict [(PStr ''query'', PStr ''q''), (PStr ''severity'', PStr ''low'')])]"
      "[(PStr ''type'', PStr ''threshold''), (PStr ''name'', PStr ''X'')]"
      "PStr ''threshold''" "''alert.toml''"]
  by (simp add: config_document_def all_field_names_def get_required_fields_def base_fields_def)


section \<open>Properties of mitre.py\<close>

lemma startswith_T: "startswith s ''T'' \<longleftrightarrow> (\<exists>rest. s = CHR ''T'' # rest)"
  by (cases s) (auto simp: startswith_def)

lemma t_reference_shape:
  "t_reference ref \<longleftrightarrow>
     (\<exists>r s. ref = PDict r \<and> map_of r (PStr ''external_id'') = Some (PStr s) \<and> startswith s ''T'')"
  by (cases ref) (auto split: option.splits pyval.splits)

lemma scan_hit:
  assumes "t_reference ref"
  shows "\<exists>tid u. py_getitem ref (PStr ''external_id'') = Inr tid
            \<and> py_get ref ''url'' PNone = Inr u
            \<and> py_truthy tid
            \<and> scan_references (ref # post) = Inr (tid, u)"
proof -
  from assms obtain r s where "ref = PDict r" "map_of r (PStr ''external_id'') = Some (PStr s)"
    "startswith s ''T''"
    unfolding t_reference_shape by blast
  then show ?thesis by (auto simp: startswith_T)
qed

lemma scan_skip:
  assumes "\<not> t_reference x" and "scan_references (x # refs) = Inr p"
  shows "scan_references refs = Inr p"
proof (cases x)
  case (PDict r)
  with assms show ?thesis
    by (auto simp: bnd_def split: if_splits option.splits sum.splits pyval.splits)
next
  case (PList xs)
  with assms show ?thesis by (auto split: if_splits)
next
  case (PStr s)
  with assms show ?thesis by (auto split: if_splits)
qed (use assms in auto)

lemma scan_prefix:
  "\<forall>x \<in> set pre. \<not> t_reference x \<Longrightarrow> scan_references (pre @ rest) = Inr p
     \<Longrightarrow> scan_references rest = Inr p"
proof (induction pre)
  case Nil
  then show ?case by simp
next
  case (Cons x pre)
  from Cons.prems have "\<not> t_reference x" by simp
  from scan_skip [OF this] Cons.prems(2) have "scan_references (pre @ rest) = Inr p" by simp
  with Cons show ?case by simp
qed

lemma scan_later_unread:
  "t_reference ref \<Longrightarrow>
     scan_references (pre @ ref # post) = scan_references (pre @ ref # post')"
proof (induction pre)
  case Nil
  from scan_hit [OF Nil, of post] scan_hit [OF Nil, of post'] show ?case by auto
next
  case (Cons x pre)
  from Cons.IH [OF Cons.prems]
  have "scan_references (pre @ ref # post) = scan_references (pre @ ref # post')" .
  then show ?case by (simp only: append_Cons scan_references.simps)
qed

lemma scan_result:
  "scan_references refs = Inr (tid, u) \<Longrightarrow>
     (tid = PNone \<and> u = PNone) \<or> (\<exists>s. tid = PStr s \<and> startswith s ''T'')"
proof (induction refs)
  case Nil
  then show ?case by simp
next
  case (Cons x refs)
  show ?case
  proof (cases "t_reference x")
    case True
    then obtain r s where "x = PDict r" "map_of r (PStr ''external_id'') = Some (PStr s)"
      "startswith s ''T''"
      unfolding t_reference_shape by blast
    with Cons.prems show ?thesis by auto
  next
    case False
    from scan_skip [OF False Cons.prems] Cons.IH show ?thesis by blast
  qed
qed

lemma parse_dict:
  "parse_attack_pattern (PDict d) =
     bnd (case map_of d (PStr ''external_references'') of
            None \<Rightarrow> Inr (PNone, PNone)
          | Some refs \<Rightarrow> bnd (py_iter refs) scan_references) (\<lambda>(tid, u).
       if \<not> py_truthy tid then Inr PNone
       else bnd (py_iter (case map_of d (PStr ''kill_chain_phases'') of
                            None \<Rightarrow> PList [] | Some v \<Rightarrow> v)) (\<lambda>phase_list.
            bnd (extract_tactics phase_list) (\<lambda>tactics.
            Inr (technique_record d tid u tactics))))"
  by (simp add: parse_attack_pattern_def technique_record_def split: option.splits cong: if_cong)

lemma parse_non_dict:
  "\<not> is_dict obj \<Longrightarrow> parse_attack_pattern obj = Inr v \<Longrightarrow> v = PNone"
  by (cases obj) (auto simp: parse_attack_pattern_def split: if_splits)

lemma parse_result:
  assumes "parse_attack_pattern obj = Inr v"
  shows "v = PNone
     \<or> (\<exists>d refs rs s u tactics. obj = PDict d
          \<and> map_of d (PStr ''external_references'') = Some refs
          \<and> py_iter refs = Inr rs
          \<and> scan_references rs = Inr (PStr s, u)
          \<and> startswith s ''T''
          \<and> v = technique_record d (PStr s) u tactics)"
proof (cases "is_dict obj")
  case False
  from parse_non_dict [OF this assms] show ?thesis by simp
next
  case True
  then obtain d where d: "obj = PDict d" by (cases obj) auto
  show ?thesis
  proof (cases "v = PNone")
    case True
    then show ?thesis by simp
  next
    case False
    from assms d obtain tid u where
      scan: "(case map_of d (PStr ''external_references'') of
            None \<Rightarrow> Inr (PNone, PNone)
          | Some refs \<Rightarrow> bnd (py_iter refs) scan_references) = Inr (tid, u)"
      by (auto simp: parse_dict bnd_def split: sum.splits)
    with assms d False have truthy: "py_truthy tid"
      by (auto simp: parse_dict split: if_splits)
    with scan obtain refs rs where refs: "map_of d (PStr ''external_references'') = Some refs"
      "py_iter refs = Inr rs" "scan_references rs = Inr (tid, u)"
      by (auto simp: bnd_def split: option.splits sum.splits)
    from scan_result [OF refs(3)] truthy obtain s where s: "tid = PStr s" "startswith s ''T''"
      by auto
    from assms d scan truthy obtain tactics where "v = technique_record d tid u tactics"
      by (auto simp: parse_dict bnd_def split: sum.splits)
    with d refs s show ?thesis by blast
  qed
qed

lemma parse_first_t_reference:
  assumes refs: "map_of d (PStr ''external_references'') = Some (PList (pre @ ref # post))"
    and pre: "\<forall>x \<in> set pre. \<not> t_reference x"
    and ref: "t_reference ref"
    and run: "parse_attack_pattern (PDict d) = Inr v"
  shows "\<exists>tid u tactics. py_getitem ref (PStr ''external_id'') = Inr tid
           \<and> py_get ref ''url'' PNone = Inr u
           \<and> v = technique_record d tid u tactics"
proof -
  from scan_hit [OF ref, of post] obtain tid u where
    hit: "py_getitem ref (PStr ''external_id'') = Inr tid" "py_get ref ''url'' PNone = Inr u"
      "py_truthy tid" "scan_references (ref # post) = Inr (tid, u)"
    by blast
  from run refs obtain p where p: "scan_references (pre @ ref # post) = Inr p"
    by (auto simp: parse_dict bnd_def split: sum.splits)
  from scan_prefix [OF pre p] hit(4) have "p = (tid, u)" by simp
  with run refs p hit(3) obtain tactics where "v = technique_record d tid u tactics"
    by (auto simp: parse_dict bnd_def split: sum.splits)
  with hit show ?thesis by blast
qed

lemma parse_later_unread:
  assumes refs: "map_of d (PStr ''external_references'') = Some (PList (pre @ ref # post))"
    and ref: "t_reference ref"
    and refs': "map_of d' (PStr ''external_references'') = Some (PList (pre @ ref # post'))"
    and same: "\<forall>k. k \<noteq> PStr ''external_references'' \<longrightarrow> map_of d' k = map_of d k"
  shows "parse_attack_pattern (PDict d') = parse_attack_pattern (PDict d)"
proof -
  from same have "map_of d' (PStr ''kill_chain_phases'') = map_of d (PStr ''kill_chain_phases'')"
    "map_of d' (PStr ''name'') = map_of d (PStr ''name'')"
    "map_of d' (PStr ''x_mitre_deprecated'') = map_of d (PStr ''x_mitre_deprecated'')"
    by simp_all
  moreover from this have "technique_record d' = technique_record d"
    by (simp add: technique_record_def fun_eq_iff)
  moreover note scan_later_unread [OF ref, of pre post' post]
  ultimately show ?thesis
    using refs refs' by (simp add: parse_dict cong: if_cong)
qed

lemma technique_record_entry:
  "startswith s ''T'' \<Longrightarrow>
     has_t_technique (technique_record d (PStr s) u tactics)
     \<and> py_truthy (technique_record d (PStr s) u tactics)
     \<and> py_getitem (technique_record d (PStr s) u tactics) (PStr ''technique'') = Inr (PStr s)"
  by (auto simp: technique_record_def startswith_T)

lemma parse_yields_t_record:
  assumes "parse_attack_pattern obj = Inr v"
  shows "v = PNone \<or> has_t_technique v"
  using parse_result [OF assms] technique_record_entry by blast

lemma scan_other_references:
  "list_all other_reference refs \<Longrightarrow> scan_references refs = Inr (PNone, PNone)"
proof (induction refs)
  case Nil
  then show ?case by simp
next
  case (Cons x refs)
  from Cons.prems have "other_reference x" by simp
  then obtain r where "x = PDict r" by (cases x) auto
  with \<open>other_reference x\<close> Cons show ?case
    by (auto split: option.splits pyval.splits)
qed

lemma parse_without_t_reference:
  assumes "map_of d (PStr ''external_references'') = None
     \<or> (\<exists>refs. map_of d (PStr ''external_references'') = Some (PList refs)
           \<and> list_all other_reference refs)"
  shows "parse_attack_pattern (PDict d) = Inr PNone"
  using assms by (auto simp: parse_dict scan_other_references)

lemma set_update_entries: "set (AList.update k v al) \<subseteq> insert (k, v) (set al)"
  by (induction al) auto

text \<open>One turn of the loop, when it raises nothing, stores the contribution of the object.\<close>

lemma catalog_loop_step:
  assumes "catalog_loop (obj # objs) m = Inr cat"
  shows "catalog_loop objs
           (case contribution obj of None \<Rightarrow> m | Some (k, r) \<Rightarrow> AList.update k r m) = Inr cat"
  using assms
  by (auto simp: contribution_def py_setitem_def bnd_def split: sum.splits if_splits)

lemma contribution_entry:
  assumes "contribution obj = Some (k, v)"
  shows "has_t_technique v \<and> py_getitem v (PStr ''technique'') = Inr k"
proof -
  from assms obtain "parse_attack_pattern obj = Inr v" "py_truthy v"
    "py_getitem v (PStr ''technique'') = Inr k"
    by (auto simp: contribution_def split: sum.splits if_splits)
  with parse_yields_t_record [of obj v] show ?thesis by auto
qed

lemma catalog_loop_entries:
  "catalog_loop objs m = Inr cat
     \<Longrightarrow> \<forall>(k, v) \<in> set m. has_t_technique v \<and> py_getitem v (PStr ''technique'') = Inr k
     \<Longrightarrow> \<forall>(k, v) \<in> set cat. has_t_technique v \<and> py_getitem v (PStr ''technique'') = Inr k"
proof (induction objs arbitrary: m)
  case Nil
  then show ?case by simp
next
  case (Cons obj objs)
  let ?m = "case contribution obj of None \<Rightarrow> m | Some (k, r) \<Rightarrow> AList.update k r m"
  from catalog_loop_step [OF Cons.prems(1)] have run: "catalog_loop objs ?m = Inr cat" .
  have "\<forall>(k, v) \<in> set ?m. has_t_technique v \<and> py_getitem v (PStr ''technique'') = Inr k"
  proof (cases "contribution obj")
    case None
    with Cons.prems(2) show ?thesis by simp
  next
    case (Some kv)
    obtain k r where kv: "kv = (k, r)" by (cases kv)
    from contribution_entry Some kv
    have "has_t_technique r \<and> py_getitem r (PStr ''technique'') = Inr k" by blast
    with Cons.prems(2) set_update_entries [of k r m] Some kv show ?thesis by auto
  qed
  from Cons.IH [OF run this] show ?case .
qed

lemma catalog_loop_fold:
  "catalog_loop objs m = Inr cat \<Longrightarrow> map_of cat = fold last_write_wins objs (map_of m)"
proof (induction objs arbitrary: m)
  case Nil
  then show ?case by simp
next
  case (Cons obj objs)
  let ?m = "case contribution obj of None \<Rightarrow> m | Some (k, r) \<Rightarrow> AList.update k r m"
  from catalog_loop_step [OF Cons.prems] have "catalog_loop objs ?m = Inr cat" .
  from Cons.IH [OF this] have "map_of cat = fold last_write_wins objs (map_of ?m)" .
  moreover have "map_of ?m = last_write_wins obj (map_of m)"
    by (auto simp: last_write_wins_def update_conv' split: option.splits)
  ultimately show ?case by simp
qed

lemma fold_keeps_key:
  "\<forall>z \<in> set zs. \<forall>r. contribution z \<noteq> Some (k, r)
     \<Longrightarrow> fold last_write_wins zs m k = m k"
  by (induction zs arbitrary: m) (auto simp: last_write_wins_def split: option.splits)

lemma fold_later_wins:
  assumes "contribution o2 = Some (k, r2)"
    and "\<forall>z \<in> set post. \<forall>r. contribution z \<noteq> Some (k, r)"
  shows "fold last_write_wins (pre @ o2 # post) m k = Some r2"
  using assms by (simp add: fold_keeps_key last_write_wins_def)

lemma py_in_error: "py_in k x = Inl e \<Longrightarrow> builtin_error e"
  by (cases x) auto

lemma py_iter_error: "py_iter x = Inl e \<Longrightarrow> builtin_error e"
  by (cases x) auto

lemma py_get_error: "py_get x k dflt = Inl e \<Longrightarrow> builtin_error e"
  by (cases x) auto

lemma py_startswith_error: "py_startswith x p = Inl e \<Longrightarrow> builtin_error e"
  by (cases x) auto

lemma guarded_getitem_error:
  "py_in k x = Inr True \<Longrightarrow> py_getitem x (PStr k) = Inl e \<Longrightarrow> builtin_error e"
  by (cases x) (auto split: option.splits)

lemma scan_error: "scan_references refs = Inl e \<Longrightarrow> builtin_error e"
proof (induction refs)
  case Nil
  then show ?case by simp
next
  case (Cons x refs)
  then show ?case
    by (auto simp: bnd_def split: sum.splits if_splits
        dest: py_in_error guarded_getitem_error py_startswith_error py_get_error)
qed

lemma tactics_error: "extract_tactics ps = Inl e \<Longrightarrow> builtin_error e"
proof (induction ps)
  case Nil
  then show ?case by simp
next
  case (Cons x ps)
  then show ?case
    by (auto simp: bnd_def split: sum.splits if_splits
        dest: py_in_error guarded_getitem_error)
qed

lemma parse_error:
  assumes "parse_attack_pattern obj = Inl e"
  shows "builtin_error e"
proof (cases "is_dict obj")
  case True
  then obtain d where "obj = PDict d" by (cases obj) auto
  with assms show ?thesis
    by (auto simp: parse_dict bnd_def split: sum.splits option.splits if_splits prod.splits
        dest: py_iter_error scan_error tactics_error)
next
  case False
  with assms show ?thesis
    by (cases obj) (auto simp: parse_attack_pattern_def split: if_splits)
qed

lemma catalog_loop_error: "catalog_loop objs m = Inl e \<Longrightarrow> builtin_error e"
proof (induction objs arbitrary: m)
  case Nil
  then show ?case by simp
next
  case (Cons obj objs)
  show ?case
  proof (cases "py_get obj ''type'' PNone")
    case (Inl e')
    with Cons.prems have "e = e'" by simp
    with Inl py_get_error show ?thesis by blast
  next
    case (Inr ty)
    show ?thesis
    proof (cases "ty = PStr ''attack-pattern''")
      case False
      with Inr Cons show ?thesis by simp
    next
      case True
      show ?thesis
      proof (cases "parse_attack_pattern obj")
        case (Inl e')
        with Inr True Cons.prems have "e = e'" by simp
        with Inl parse_error show ?thesis by blast
      next
        case parsed: (Inr p)
        from parse_result [OF parsed] consider "p = PNone"
          | d s u tactics where "p = technique_record d (PStr s) u tactics" "startswith s ''T''"
          by blast
        then show ?thesis
        proof cases
          case 1
          with Inr True parsed Cons show ?thesis by simp
        next
          case 2
          with technique_record_entry [OF 2(2), of d u tactics] Inr True parsed Cons.prems
          have "catalog_loop objs (AList.update (PStr s) p m) = Inl e"
            by (simp add: py_setitem_def)
          with Cons.IH show ?thesis by blast
        qed
      qed
    qed
  qed
qed

lemma catalog_loop_non_object:
  "\<not> list_all is_dict objs \<Longrightarrow> \<exists>e. catalog_loop objs m = Inl e"
proof (induction objs arbitrary: m)
  case Nil
  then show ?case by simp
next
  case (Cons obj objs)
  show ?case
  proof (cases "is_dict obj")
    case False
    then have "py_get obj ''type'' PNone = Inl AttributeError" by (cases obj) auto
    then show ?thesis by simp
  next
    case True
    with Cons.prems have rest: "\<not> list_all is_dict objs" by simp
    show ?thesis
    proof (cases "catalog_loop (obj # objs) m")
      case (Inl e)
      then show ?thesis by blast
    next
      case (Inr cat)
      let ?m = "case contribution obj of None \<Rightarrow> m | Some (k, r) \<Rightarrow> AList.update k r m"
      from catalog_loop_step [OF Inr] have "catalog_loop objs ?m = Inr cat" .
      moreover from Cons.IH [OF rest, of ?m] obtain e where "catalog_loop objs ?m = Inl e" ..
      ultimately show ?thesis by simp
    qed
  qed
qed

lemma mitre_main_malformed:
  assumes objects: "map_of b (PStr ''objects'') = Some v"
    and keys: "str_keyed v"
    and shape: "\<not> object_sequence v"
  shows "if v = PDict [] \<or> v = PStr [] then mitre_main (PDict b) = Inr []
         else mitre_main (PDict b) = Inl TypeError \<or> mitre_main (PDict b) = Inl AttributeError"
proof (cases "v = PDict [] \<or> v = PStr []")
  case True
  with objects show ?thesis by (auto simp: mitre_main_def)
next
  case False
  have "\<exists>e. mitre_main (PDict b) = Inl e"
  proof (cases v)
    case (PList xs)
    with shape have "\<not> list_all is_dict xs" by simp
    from catalog_loop_non_object [OF this, of "[]"] objects PList show ?thesis
      by (auto simp: mitre_main_def)
  next
    case (PStr s)
    with False obtain c cs where "s = c # cs" by (cases s) auto
    with objects PStr show ?thesis by (simp add: mitre_main_def)
  next
    case (PDict kv)
    with False obtain k x kv' where kv: "kv = (k, x) # kv'" by (cases kv) auto
    with keys PDict obtain s where "k = PStr s" by (cases k) auto
    with objects PDict kv show ?thesis by (simp add: mitre_main_def)
  qed (use objects in \<open>auto simp: mitre_main_def\<close>)
  then obtain e where e: "mitre_main (PDict b) = Inl e" by blast
  with objects have "builtin_error e"
    by (auto simp: mitre_main_def bnd_def split: sum.splits
        dest: py_iter_error catalog_loop_error)
  with e False show ?thesis by (cases e) auto
qed

text \<open>
  C1. When the external references of an object list a reference with a T-identifier
  after references that have none, every record that \<^verbatim>\<open>parse_attack_pattern\<close>
  produces takes its \<^verbatim>\<open>technique\<close> from the \<^verbatim>\<open>external_id\<close> of that first
  reference and its \<^verbatim>\<open>url\<close> from the same reference (\<^verbatim>\<open>None\<close> when it has no
  \<^verbatim>\<open>url\<close>). The references after it are never read: replacing them by anything, with
  or without further T-identifiers, leaves the outcome of the call unchanged.
\<close>

theorem first_t_reference_wins:
  assumes "map_of d (PStr ''external_references'') = Some (PList (pre @ ref # post))"
    and "\<forall>x \<in> set pre. \<not> t_reference x"
    and "t_reference ref"
  shows "(\<forall>v. parse_attack_pattern (PDict d) = Inr v \<longrightarrow>
            (\<exists>rec tid u. v = PDict rec
               \<and> py_getitem ref (PStr ''external_id'') = Inr tid
               \<and> py_get ref ''url'' PNone = Inr u
               \<and> map_of rec (PStr ''technique'') = Some tid
               \<and> map_of rec (PStr ''url'') = Some u))
       \<and> (\<forall>d' post'.
            map_of d' (PStr ''external_references'') = Some (PList (pre @ ref # post'))
            \<and> (\<forall>k. k \<noteq> PStr ''external_references'' \<longrightarrow> map_of d' k = map_of d k)
            \<longrightarrow> parse_attack_pattern (PDict d') = parse_attack_pattern (PDict d))"
proof (intro conjI allI impI)
  fix v
  assume "parse_attack_pattern (PDict d) = Inr v"
  from parse_first_t_reference [OF assms this] obtain tid u tactics where
    "py_getitem ref (PStr ''external_id'') = Inr tid" "py_get ref ''url'' PNone = Inr u"
    "v = technique_record d tid u tactics"
    by blast
  then show "\<exists>rec tid u. v = PDict rec
               \<and> py_getitem ref (PStr ''external_id'') = Inr tid
               \<and> py_get ref ''url'' PNone = Inr u
               \<and> map_of rec (PStr ''technique'') = Some tid
               \<and> map_of rec (PStr ''url'') = Some u"
    by (simp add: technique_record_def)
next
  fix d' post'
  assume "map_of d' (PStr ''external_references'') = Some (PList (pre @ ref # post'))
            \<and> (\<forall>k. k \<noteq> PStr ''external_references'' \<longrightarrow> map_of d' k = map_of d k)"
  then show "parse_attack_pattern (PDict d') = parse_attack_pattern (PDict d)"
    using parse_later_unread [OF assms(1) assms(3)] by blast
qed

theorem first_t_reference_wins_witness:
  "(\<exists>rec. parse_attack_pattern
        (PDict [(PStr ''name'', PStr ''Scripting''),
                (PStr ''external_references'',
                 PList [PDict [(PStr ''external_id'', PStr ''CAPEC-242'')],
                        PDict [(PStr ''external_id'', PStr ''T1059''), (PStr ''url'', PStr ''u1'')],
                        PDict [(PStr ''external_id'', PStr ''T1064''), (PStr ''url'', PStr ''u2'')]])])
        = Inr (PDict rec)
      \<and> map_of rec (PStr ''technique'') = Some (PStr ''T1059'')
      \<and> map_of rec (PStr ''url'') = Some (PStr ''u1''))
   \<and> parse_attack_pattern
        (PDict [(PStr ''name'', PStr ''Scripting''),
                (PStr ''external_references'',
                 PList [PDict [(PStr ''external_id'', PStr ''CAPEC-242'')],
                        PDict [(PStr ''external_id'', PStr ''T1059''), (PStr ''url'', PStr ''u1'')],
                        PInt 7])])
     = parse_attack_pattern
        (PDict [(PStr ''name'', PStr ''Scripting''),
                (PStr ''external_references'',
                 PList [PDict [(PStr ''external_id'', PStr ''CAPEC-242'')],
                        PDict [(PStr ''external_id'', PStr ''T1059''), (PStr ''url'', PStr ''u1'')],
                        PDict [(PStr ''external_id'', PStr ''T1064''), (PStr ''url'', PStr ''u2'')]])])"
proof -
  let ?capec = "PDict [(PStr ''external_id'', PStr ''CAPEC-242'')]"
  let ?first = "PDict [(PStr ''external_id'', PStr ''T1059''), (PStr ''url'', PStr ''u1'')]"
  let ?second = "PDict [(PStr ''external_id'', PStr ''T1064''), (PStr ''url'', PStr ''u2'')]"
  let ?d = "[(PStr ''name'', PStr ''Scripting''),
             (PStr ''external_references'', PList [?capec, ?first, ?second])]"
  let ?d' = "[(PStr ''name'', PStr ''Scripting''),
              (PStr ''external_references'', PList [?capec, ?first, PInt 7])]"
  let ?rec = "[(PStr ''tactics'', PList []), (PStr ''technique'', PStr ''T1059''),
               (PStr ''name'', PStr ''Scripting''), (PStr ''url'', PStr ''u1''),
               (PStr ''deprecated'', PBool False)]"
  have refs: "map_of ?d (PStr ''external_references'') = Some (PList ([?capec] @ ?first # [?second]))"
    by simp
  have pre: "\<forall>x \<in> set [?capec]. \<not> t_reference x" by (simp add: startswith_def)
  have hit: "t_reference ?first" by (simp add: startswith_def)
  note inst = first_t_reference_wins [OF refs pre hit]
  have run: "parse_attack_pattern (PDict ?d) = Inr (PDict ?rec)"
    by (simp add: parse_attack_pattern_def startswith_def)
  have other: "map_of ?d' (PStr ''external_references'') = Some (PList ([?capec] @ ?first # [PInt 7]))
      \<and> (\<forall>k. k \<noteq> PStr ''external_references'' \<longrightarrow> map_of ?d' k = map_of ?d k)"
    by simp
  from inst have later: "\<forall>d' post'.
            map_of d' (PStr ''external_references'') = Some (PList ([?capec] @ ?first # post'))
            \<and> (\<forall>k. k \<noteq> PStr ''external_references'' \<longrightarrow> map_of d' k = map_of ?d k)
            \<longrightarrow> parse_attack_pattern (PDict d') = parse_attack_pattern (PDict ?d)"
    by (rule conjunct2)
  from later [rule_format, OF other]
  have same: "parse_attack_pattern (PDict ?d') = parse_attack_pattern (PDict ?d)" .
  have fields: "map_of ?rec (PStr ''technique'') = Some (PStr ''T1059'')
      \<and> map_of ?rec (PStr ''url'') = Some (PStr ''u1'')" by simp
  from inst have first: "\<forall>v. parse_attack_pattern (PDict ?d) = Inr v \<longrightarrow>
            (\<exists>rec tid u. v = PDict rec
               \<and> py_getitem ?first (PStr ''external_id'') = Inr tid
               \<and> py_get ?first ''url'' PNone = Inr u
               \<and> map_of rec (PStr ''technique'') = Some tid
               \<and> map_of rec (PStr ''url'') = Some u)"
    by (rule conjunct1)
  from first [rule_format, OF run] obtain rec where "\<exists>tid u. PDict ?rec = PDict rec
               \<and> py_getitem ?first (PStr ''external_id'') = Inr tid
               \<and> py_get ?first ''url'' PNone = Inr u
               \<and> map_of rec (PStr ''technique'') = Some tid
               \<and> map_of rec (PStr ''url'') = Some u" ..
  then obtain tid where "\<exists>u. PDict ?rec = PDict rec
               \<and> py_getitem ?first (PStr ''external_id'') = Inr tid
               \<and> py_get ?first ''url'' PNone = Inr u
               \<and> map_of rec (PStr ''technique'') = Some tid
               \<and> map_of rec (PStr ''url'') = Some u" ..
  then obtain u where found: "PDict ?rec = PDict rec
               \<and> py_getitem ?first (PStr ''external_id'') = Inr tid
               \<and> py_get ?first ''url'' PNone = Inr u
               \<and> map_of rec (PStr ''technique'') = Some tid
               \<and> map_of rec (PStr ''url'') = Some u" ..
  from found have "PDict ?rec = PDict rec" by (rule conjunct1)
  then have rec: "rec = ?rec" by simp
  have "map_of rec (PStr ''technique'') = Some (PStr ''T1059'')"
    and "map_of rec (PStr ''url'') = Some (PStr ''u1'')"
    unfolding rec by simp_all
  moreover note rec
  ultimately have "parse_attack_pattern (PDict ?d) = Inr (PDict rec)
      \<and> map_of rec (PStr ''technique'') = Some (PStr ''T1059'')
      \<and> map_of rec (PStr ''url'') = Some (PStr ''u1'')"
    using run by simp
  then have "\<exists>rec. parse_attack_pattern (PDict ?d) = Inr (PDict rec)
      \<and> map_of rec (PStr ''technique'') = Some (PStr ''T1059'')
      \<and> map_of rec (PStr ''url'') = Some (PStr ''u1'')"
    by (rule exI [of _ rec])
  from this same show ?thesis by (rule conjI)
qed

text \<open>
  C2. The catalogue that \<^verbatim>\<open>main\<close> returns is, as a map, the fold over the objects
  in bundle order in which a later record replaces an earlier one under the same key. In
  particular, when two objects of the bundle yield records under the same technique
  identifier and no object after the second one does, the catalogue maps the identifier to
  the record of the second, later one.
\<close>

theorem later_object_wins:
  assumes "mitre_main mitre_data = Inr catalog"
    and "py_get mitre_data ''objects'' (PList []) = Inr (PList objs)"
  shows "map_of catalog = catalog_fold objs
     \<and> (\<forall>pre o1 mid o2 post k r1 r2.
          objs = pre @ o1 # mid @ o2 # post
          \<and> contribution o1 = Some (k, r1) \<and> contribution o2 = Some (k, r2)
          \<and> (\<forall>z \<in> set post. \<forall>r. contribution z \<noteq> Some (k, r))
          \<longrightarrow> map_of catalog k = Some r2)"
proof -
  from assms have "catalog_loop objs [] = Inr catalog" by (simp add: mitre_main_def)
  from catalog_loop_fold [OF this] have fold: "map_of catalog = catalog_fold objs"
    by (simp add: catalog_fold_def)
  have "map_of catalog k = Some r2"
    if "objs = pre @ o1 # mid @ o2 # post \<and> contribution o1 = Some (k, r1)
        \<and> contribution o2 = Some (k, r2)
        \<and> (\<forall>z \<in> set post. \<forall>r. contribution z \<noteq> Some (k, r))"
    for pre o1 mid o2 post k r1 r2
  proof -
    from that have "objs = (pre @ o1 # mid) @ o2 # post" by simp
    moreover from that have "contribution o2 = Some (k, r2)"
      "\<forall>z \<in> set post. \<forall>r. contribution z \<noteq> Some (k, r)" by blast+
    ultimately show ?thesis
      unfolding fold catalog_fold_def by (simp only: fold_later_wins)
  qed
  with fold show ?thesis by blast
qed

theorem later_object_wins_witness:
  "(\<exists>catalog.
      mitre_main
        (PDict [(PStr ''objects'',
           PList [PDict [(PStr ''type'', PStr ''attack-pattern''), (PStr ''name'', PStr ''old''),
                         (PStr ''external_references'',
                          PList [PDict [(PStr ''external_id'', PStr ''T1059'')]])],
                  PDict [(PStr ''type'', PStr ''malware'')],
                  PDict [(PStr ''type'', PStr ''attack-pattern''), (PStr ''name'', PStr ''new''),
                         (PStr ''external_references'',
                          PList [PDict [(PStr ''external_id'', PStr ''T1059'')]])]])])
      = Inr catalog
    \<and> map_of catalog (PStr ''T1059'')
      = Some (PDict [(PStr ''tactics'', PList []), (PStr ''technique'', PStr ''T1059''),
                     (PStr ''name'', PStr ''new''), (PStr ''url'', PNone),
                     (PStr ''deprecated'', PBool False)]))"
proof -
  let ?o1 = "PDict [(PStr ''type'', PStr ''attack-pattern''), (PStr ''name'', PStr ''old''),
                         (PStr ''external_references'',
                          PList [PDict [(PStr ''external_id'', PStr ''T1059'')]])]"
  let ?mid = "PDict [(PStr ''type'', PStr ''malware'')]"
  let ?o2 = "PDict [(PStr ''type'', PStr ''attack-pattern''), (PStr ''name'', PStr ''new''),
                         (PStr ''external_references'',
                          PList [PDict [(PStr ''external_id'', PStr ''T1059'')]])]"
  let ?doc = "PDict [(PStr ''objects'', PList [?o1, ?mid, ?o2])]"
  let ?r1 = "PDict [(PStr ''tactics'', PList []), (PStr ''technique'', PStr ''T1059''),
                     (PStr ''name'', PStr ''old''), (PStr ''url'', PNone),
                     (PStr ''deprecated'', PBool False)]"
  let ?r2 = "PDict [(PStr ''tactics'', PList []), (PStr ''technique'', PStr ''T1059''),
                     (PStr ''name'', PStr ''new''), (PStr ''url'', PNone),
                     (PStr ''deprecated'', PBool False)]"
  have run: "mitre_main ?doc = Inr [(PStr ''T1059'', ?r2)]"
    by (simp add: mitre_main_def parse_attack_pattern_def py_setitem_def startswith_def)
  have objs: "py_get ?doc ''objects'' (PList []) = Inr (PList [?o1, ?mid, ?o2])"
    by simp
  have shape: "[?o1, ?mid, ?o2] = [] @ ?o1 # [?mid] @ ?o2 # []
          \<and> contribution ?o1 = Some (PStr ''T1059'', ?r1)
          \<and> contribution ?o2 = Some (PStr ''T1059'', ?r2)
          \<and> (\<forall>z \<in> set []. \<forall>r. contribution z \<noteq> Some (PStr ''T1059'', r))"
    by (simp add: contribution_def parse_attack_pattern_def startswith_def)
  from later_object_wins [OF run objs]
  have "\<forall>pre o1 mid o2 post k r1 r2.
          [?o1, ?mid, ?o2] = pre @ o1 # mid @ o2 # post
          \<and> contribution o1 = Some (k, r1) \<and> contribution o2 = Some (k, r2)
          \<and> (\<forall>z \<in> set post. \<forall>r. contribution z \<noteq> Some (k, r))
          \<longrightarrow> map_of [(PStr ''T1059'', ?r2)] k = Some r2"
    by (rule conjunct2)
  from this [rule_format, OF shape]
  have "map_of [(PStr ''T1059'', ?r2)] (PStr ''T1059'') = Some ?r2" .
  with run have "mitre_main ?doc = Inr [(PStr ''T1059'', ?r2)]
      \<and> map_of [(PStr ''T1059'', ?r2)] (PStr ''T1059'') = Some ?r2"
    by (rule conjI)
  then show ?thesis by (rule exI [of _ "[(PStr ''T1059'', ?r2)]"])
qed

text \<open>
  C3. Every entry of the catalogue that \<^verbatim>\<open>main\<close> builds is a record whose
  \<^verbatim>\<open>technique\<close> is a non-empty string starting with \<^verbatim>\<open>T\<close>, stored under that
  identifier; \<^verbatim>\<open>parse_attack_pattern\<close> returns \<^verbatim>\<open>None\<close> or such a record and
  nothing else; and an object whose external references are absent, or are references of
  the data model none of which has a T-identifier, yields \<^verbatim>\<open>None\<close>, not an exception,
  and the loop goes on to the next object with the catalogue unchanged.
\<close>

theorem catalog_holds_t_techniques:
  "(mitre_main mitre_data = Inr catalog \<longrightarrow>
      (\<forall>(k, v) \<in> set catalog.
          has_t_technique v \<and> py_getitem v (PStr ''technique'') = Inr k))
   \<and> (parse_attack_pattern obj = Inr v \<longrightarrow> v = PNone \<or> has_t_technique v)
   \<and> (map_of d (PStr ''external_references'') = None
        \<or> (\<exists>refs. map_of d (PStr ''external_references'') = Some (PList refs)
              \<and> list_all other_reference refs)
       \<longrightarrow> parse_attack_pattern (PDict d) = Inr PNone
           \<and> catalog_loop (PDict d # objs) m = catalog_loop objs m)"
proof (intro conjI impI)
  assume "mitre_main mitre_data = Inr catalog"
  then obtain objs where "catalog_loop objs [] = Inr catalog"
    by (auto simp: mitre_main_def bnd_def split: sum.splits)
  from catalog_loop_entries [OF this]
  show "\<forall>(k, v) \<in> set catalog. has_t_technique v \<and> py_getitem v (PStr ''technique'') = Inr k"
    by simp
next
  assume "parse_attack_pattern obj = Inr v"
  then show "v = PNone \<or> has_t_technique v" by (rule parse_yields_t_record)
next
  assume none: "map_of d (PStr ''external_references'') = None
        \<or> (\<exists>refs. map_of d (PStr ''external_references'') = Some (PList refs)
              \<and> list_all other_reference refs)"
  then show "parse_attack_pattern (PDict d) = Inr PNone" by (rule parse_without_t_reference)
  then show "catalog_loop (PDict d # objs) m = catalog_loop objs m" by simp
qed

theorem catalog_holds_t_techniques_witness:
  "mitre_main
     (PDict [(PStr ''objects'',
        PList [PDict [(PStr ''type'', PStr ''attack-pattern''),
                      (PStr ''external_references'',
                       PList [PDict [(PStr ''external_id'', PStr ''T1059'')]])],
               PDict [(PStr ''type'', PStr ''attack-pattern''),
                      (PStr ''external_references'',
                       PList [PDict [(PStr ''external_id'', PStr ''CAPEC-242'')]])]])])
   = Inr [(PStr ''T1059'',
           PDict [(PStr ''tactics'', PList []), (PStr ''technique'', PStr ''T1059''),
                  (PStr ''name'', PStr ''N/A''), (PStr ''url'', PNone),
                  (PStr ''deprecated'', PBool False)])]
   \<and> has_t_technique
        (PDict [(PStr ''tactics'', PList []), (PStr ''technique'', PStr ''T1059''),
                (PStr ''name'', PStr ''N/A''), (PStr ''url'', PNone),
                (PStr ''deprecated'', PBool False)])
   \<and> parse_attack_pattern
        (PDict [(PStr ''type'', PStr ''attack-pattern''),
                (PStr ''external_references'',
                 PList [PDict [(PStr ''external_id'', PStr ''CAPEC-242'')]])])
     = Inr PNone"
proof -
  let ?o1 = "PDict [(PStr ''type'', PStr ''attack-pattern''),
                      (PStr ''external_references'',
                       PList [PDict [(PStr ''external_id'', PStr ''T1059'')]])]"
  let ?d2 = "[(PStr ''type'', PStr ''attack-pattern''),
              (PStr ''external_references'',
               PList [PDict [(PStr ''external_id'', PStr ''CAPEC-242'')]])]"
  let ?doc = "PDict [(PStr ''objects'', PList [?o1, PDict ?d2])]"
  let ?rec = "PDict [(PStr ''tactics'', PList []), (PStr ''technique'', PStr ''T1059''),
                  (PStr ''name'', PStr ''N/A''), (PStr ''url'', PNone),
                  (PStr ''deprecated'', PBool False)]"
  note inst = catalog_holds_t_techniques [of ?doc "[(PStr ''T1059'', ?rec)]" ?o1 ?rec ?d2 "[]" "[]"]
  have run: "mitre_main ?doc = Inr [(PStr ''T1059'', ?rec)]"
    by (simp add: mitre_main_def parse_attack_pattern_def py_setitem_def startswith_def)
  have untagged: "map_of ?d2 (PStr ''external_references'') = None
        \<or> (\<exists>refs. map_of ?d2 (PStr ''external_references'') = Some (PList refs)
              \<and> list_all other_reference refs)"
    by (simp add: startswith_def)
  from inst have "mitre_main ?doc = Inr [(PStr ''T1059'', ?rec)] \<longrightarrow>
      (\<forall>(k, v) \<in> set [(PStr ''T1059'', ?rec)].
          has_t_technique v \<and> py_getitem v (PStr ''technique'') = Inr k)"
    by (rule conjunct1)
  from this [rule_format, OF run] have entry: "has_t_technique ?rec" by simp
  from inst have "map_of ?d2 (PStr ''external_references'') = None
        \<or> (\<exists>refs. map_of ?d2 (PStr ''external_references'') = Some (PList refs)
              \<and> list_all other_reference refs)
       \<longrightarrow> parse_attack_pattern (PDict ?d2) = Inr PNone
           \<and> catalog_loop (PDict ?d2 # []) [] = catalog_loop [] []"
    by (rule conjunct2 [OF conjunct2])
  from this [rule_format, OF untagged] have dropped: "parse_attack_pattern (PDict ?d2) = Inr PNone"
    by (rule conjunct1)
  from run entry dropped show ?thesis by (intro conjI)
qed

text \<open>
  C5, as stated, fails: with \<^verbatim>\<open>objects\<close> an empty dictionary, which is not a sequence
  of objects, \<^verbatim>\<open>main\<close> returns the empty catalogue and raises nothing.
\<close>

theorem malformed_objects_counterexample:
  "\<not> object_sequence (PDict [])
   \<and> mitre_main (PDict [(PStr ''objects'', PDict [])]) = Inr []"
  by (simp add: mitre_main_def)

text \<open>
  C5, as the code has it. There is no \<^verbatim>\<open>MalformedBundle\<close> error. When
  \<^verbatim>\<open>objects\<close> is present and is not a list of dictionaries, \<^verbatim>\<open>main\<close> raises
  \<^verbatim>\<open>TypeError\<close> or \<^verbatim>\<open>AttributeError\<close>, except for the empty string and the
  empty dictionary, over which the loop runs zero times and the empty catalogue results.
\<close>

theorem malformed_objects_outcome:
  assumes "map_of b (PStr ''objects'') = Some v" and "str_keyed v" and "\<not> object_sequence v"
  shows "(v = PDict [] \<or> v = PStr [] \<longrightarrow> mitre_main (PDict b) = Inr [])
     \<and> (v \<noteq> PDict [] \<and> v \<noteq> PStr [] \<longrightarrow>
          mitre_main (PDict b) = Inl TypeError \<or> mitre_main (PDict b) = Inl AttributeError)"
  using mitre_main_malformed [OF assms] by (auto split: if_splits)

theorem malformed_objects_outcome_witness:
  "mitre_main (PDict [(PStr ''objects'', PStr [])]) = Inr []
   \<and> mitre_main (PDict [(PStr ''objects'', PNone)]) = Inl TypeError
   \<and> mitre_main (PDict [(PStr ''objects'', PList [PInt 1])]) = Inl AttributeError"
proof -
  have a: "map_of [(PStr ''objects'', PStr [])] (PStr ''objects'') = Some (PStr [])"
    and b: "map_of [(PStr ''objects'', PNone)] (PStr ''objects'') = Some PNone"
    and c: "map_of [(PStr ''objects'', PList [PInt 1])] (PStr ''objects'') = Some (PList [PInt 1])"
    by simp_all
  have "mitre_main (PDict [(PStr ''objects'', PStr [])]) = Inr []"
    using malformed_objects_outcome [OF a] by simp
  moreover have "mitre_main (PDict [(PStr ''objects'', PNone)]) = Inl TypeError"
    using malformed_objects_outcome [OF b] by (simp add: mitre_main_def)
  moreover have "mitre_main (PDict [(PStr ''objects'', PList [PInt 1])]) = Inl AttributeError"
    using malformed_objects_outcome [OF c] by (simp add: mitre_main_def)
  ultimately show ?thesis by (intro conjI)
qed

text \<open>
  C10. Every record that \<^verbatim>\<open>parse_attack_pattern\<close> returns has the key
  \<^verbatim>\<open>url\<close>; when the first reference with a T-identifier has no \<^verbatim>\<open>url\<close> field,
  the record maps \<^verbatim>\<open>url\<close> to \<^verbatim>\<open>None\<close>.
\<close>

theorem record_always_has_url:
  assumes "parse_attack_pattern obj = Inr (PDict rec)"
  shows "(\<exists>u. map_of rec (PStr ''url'') = Some u)
     \<and> (\<forall>d pre r post.
          obj = PDict d
          \<and> map_of d (PStr ''external_references'') = Some (PList (pre @ PDict r # post))
          \<and> (\<forall>x \<in> set pre. \<not> t_reference x)
          \<and> t_reference (PDict r)
          \<and> map_of r (PStr ''url'') = None
          \<longrightarrow> map_of rec (PStr ''url'') = Some PNone)"
proof (intro conjI allI impI)
  from parse_result [OF assms] show "\<exists>u. map_of rec (PStr ''url'') = Some u"
    by (auto simp: technique_record_def)
next
  fix d pre r post
  assume h: "obj = PDict d
          \<and> map_of d (PStr ''external_references'') = Some (PList (pre @ PDict r # post))
          \<and> (\<forall>x \<in> set pre. \<not> t_reference x)
          \<and> t_reference (PDict r)
          \<and> map_of r (PStr ''url'') = None"
  then have "parse_attack_pattern (PDict d) = Inr (PDict rec)" using assms by simp
  from parse_first_t_reference [OF _ _ _ this, of pre "PDict r" post] h
  show "map_of rec (PStr ''url'') = Some PNone"
    by (auto simp: technique_record_def)
qed

theorem record_always_has_url_witness:
  "parse_attack_pattern
     (PDict [(PStr ''external_references'',
              PList [PDict [(PStr ''source_name'', PStr ''capec'')],
                     PDict [(PStr ''external_id'', PStr ''T1059'')],
                     PDict [(PStr ''external_id'', PStr ''T1064''), (PStr ''url'', PStr ''u2'')]])])
   = Inr (PDict [(PStr ''tactics'', PList []), (PStr ''technique'', PStr ''T1059''),
                 (PStr ''name'', PStr ''N/A''), (PStr ''url'', PNone),
                 (PStr ''deprecated'', PBool False)])
   \<and> map_of [(PStr ''tactics'', PList []), (PStr ''technique'', PStr ''T1059''),
             (PStr ''name'', PStr ''N/A''), (PStr ''url'', PNone),
             (PStr ''deprecated'', PBool False)] (PStr ''url'') = Some PNone"
proof -
  let ?capec = "PDict [(PStr ''source_name'', PStr ''capec'')]"
  let ?r = "[(PStr ''external_id'', PStr ''T1059'')]"
  let ?second = "PDict [(PStr ''external_id'', PStr ''T1064''), (PStr ''url'', PStr ''u2'')]"
  let ?d = "[(PStr ''external_references'', PList [?capec, PDict ?r, ?second])]"
  let ?rec = "[(PStr ''tactics'', PList []), (PStr ''technique'', PStr ''T1059''),
                 (PStr ''name'', PStr ''N/A''), (PStr ''url'', PNone),
                 (PStr ''deprecated'', PBool False)]"
  have run: "parse_attack_pattern (PDict ?d) = Inr (PDict ?rec)"
    by (simp add: parse_attack_pattern_def startswith_def)
  have shape: "PDict ?d = PDict ?d
      \<and> map_of ?d (PStr ''external_references'') = Some (PList ([?capec] @ PDict ?r # [?second]))
      \<and> (\<forall>x \<in> set [?capec]. \<not> t_reference x)
      \<and> t_reference (PDict ?r)
      \<and> map_of ?r (PStr ''url'') = None"
    by (simp add: startswith_def)
  from record_always_has_url [OF run] have "\<forall>d pre r post.
          PDict ?d = PDict d
          \<and> map_of d (PStr ''external_references'') = Some (PList (pre @ PDict r # post))
          \<and> (\<forall>x \<in> set pre. \<not> t_reference x)
          \<and> t_reference (PDict r)
          \<and> map_of r (PStr ''url'') = None
          \<longrightarrow> map_of ?rec (PStr ''url'') = Some PNone"
    by (rule conjunct2)
  from this [rule_format, OF shape] have "map_of ?rec (PStr ''url'') = Some PNone" .
  with run show ?thesis by (rule conjI)
qed

subsection \<open>No exception on a bundle of the data model\<close>

text \<open>
  The properties of the catalogue above are stated for a call that returns. On a bundle
  whose objects all have the shape of the data model the call does return.
\<close>

lemma scan_data_model:
  "list_all data_model_reference refs \<Longrightarrow> \<exists>p. scan_references refs = Inr p"
proof (induction refs)
  case Nil
  then show ?case by simp
next
  case (Cons x refs)
  from Cons.prems have "data_model_reference x" by simp
  then obtain r where "x = PDict r" by (cases x) auto
  with \<open>data_model_reference x\<close> Cons show ?case
    by (auto split: option.splits pyval.splits)
qed

lemma tactics_data_model:
  "list_all is_dict phases \<Longrightarrow> \<exists>ts. extract_tactics phases = Inr ts"
proof (induction phases)
  case Nil
  then show ?case by simp
next
  case (Cons x phases)
  from Cons.prems have "is_dict x" by simp
  then obtain p where "x = PDict p" by (cases x) auto
  with Cons show ?case by (auto split: option.splits)
qed

lemma parse_data_model:
  assumes "data_model_object obj"
  shows "\<exists>v. parse_attack_pattern obj = Inr v"
proof -
  from assms obtain d where d: "obj = PDict d" by (cases obj) auto
  have "\<exists>p. (case map_of d (PStr ''external_references'') of
            None \<Rightarrow> Inr (PNone, PNone)
          | Some refs \<Rightarrow> bnd (py_iter refs) scan_references) = Inr p"
    using assms d by (auto split: option.splits pyval.splits dest: scan_data_model)
  then obtain tid u where scan: "(case map_of d (PStr ''external_references'') of
            None \<Rightarrow> Inr (PNone, PNone)
          | Some refs \<Rightarrow> bnd (py_iter refs) scan_references) = Inr (tid, u)"
    by force
  have "\<exists>ts. bnd (py_iter (case map_of d (PStr ''kill_chain_phases'') of
                            None \<Rightarrow> PList [] | Some v \<Rightarrow> v)) extract_tactics = Inr ts"
    using assms d by (auto split: option.splits pyval.splits dest: tactics_data_model)
  then obtain ts where "bnd (py_iter (case map_of d (PStr ''kill_chain_phases'') of
                            None \<Rightarrow> PList [] | Some v \<Rightarrow> v)) extract_tactics = Inr ts" ..
  with scan d show ?thesis
    by (auto simp: parse_dict bnd_def split: sum.splits)
qed

lemma catalog_loop_data_model:
  "list_all data_model_object objs \<Longrightarrow> \<exists>catalog. catalog_loop objs m = Inr catalog"
proof (induction objs arbitrary: m)
  case Nil
  then show ?case by simp
next
  case (Cons obj objs)
  from Cons.prems have obj: "data_model_object obj" and rest: "list_all data_model_object objs"
    by simp_all
  from obj obtain d where d: "obj = PDict d" by (cases obj) auto
  from parse_data_model [OF obj] obtain v where v: "parse_attack_pattern obj = Inr v" ..
  from parse_result [OF v] consider "v = PNone"
    | d' s u tactics where "v = technique_record d' (PStr s) u tactics" "startswith s ''T''"
    by blast
  then show ?case
  proof cases
    case 1
    with d v Cons.IH [OF rest, of m] show ?thesis by simp
  next
    case 2
    from technique_record_entry [OF 2(2), of d' u tactics] 2(1) d v
      Cons.IH [OF rest, of m] Cons.IH [OF rest, of "AList.update (PStr s) v m"]
    show ?thesis by (simp add: py_setitem_def)
  qed
qed

lemma mitre_main_data_model:
  assumes "map_of b (PStr ''objects'') = None
     \<or> (\<exists>objs. map_of b (PStr ''objects'') = Some (PList objs) \<and> list_all data_model_object objs)"
  shows "\<exists>catalog. mitre_main (PDict b) = Inr catalog"
  using assms catalog_loop_data_model by (auto simp: mitre_main_def)

end
